theory Spec2Isabelle
  imports Complex_Main
begin

section \<open>Data model\<close>

text \<open>
  The datastore is reached through Prisma. Each table is modelled as the list of its rows,
  in insertion order. Only the columns that the ledger and fraud code reads or writes are
  kept; free-text columns (names, descriptions, messages, notes) are left out.

  Identifiers are strings. Status and type columns are the string literals that the code
  writes and compares (the Prisma schema that declares the enums is not part of the
  sources). Instants are milliseconds since the epoch, as \<open>Date.now()\<close> returns them.
  Amounts are exact rationals: the rounding of JavaScript numbers and of the decimal
  column type is not modelled.
\<close>

type_synonym ident = string
type_synonym instant = int
type_synonym money = rat

record user =
  u_id :: ident
  u_email :: string
  u_balance :: money
  u_isSuspended :: bool
  u_isDeleted :: bool
  u_kycStatus :: string
  u_isFlagged :: bool
  u_createdAt :: instant

record transaction =
  t_id :: ident
  t_senderId :: ident
  t_recipientId :: ident
  t_amount :: money
  t_currency :: string
  t_transactionType :: string
  t_status :: string
  t_isFlagged :: bool
  t_isRefunded :: bool
  t_createdAt :: instant
  t_originalTransactionId :: "ident option"
  t_emailPaymentId :: "ident option"
  t_disputeId :: "ident option"

record emailPayment =
  p_id :: ident
  p_senderId :: ident
  p_recipientEmail :: string
  p_amount :: money
  p_currency :: string
  p_claimCode :: string
  p_expiresAt :: instant
  p_status :: string
  p_claimedById :: "ident option"

record dispute =
  d_id :: ident
  d_userId :: ident
  d_transactionId :: ident
  d_status :: string
  d_resolution :: "string option"
  d_refundAmount :: "money option"

text \<open>
  The \<open>conditions\<close> column of a fraud rule is a JSON object; the code reads five keys of it.
  A key that is absent is \<open>None\<close>.
\<close>

record conditions =
  timeWindowMinutes :: "int option"
  maxTransactions :: "int option"
  threshold :: "money option"
  maxAccountAgeDays :: "int option"
  minAmount :: "money option"

record fraudRule =
  r_id :: ident
  r_ruleType :: string
  r_conditions :: conditions
  r_severity :: string
  r_isActive :: bool

text \<open>A fraud alert row; its generated identifier is never read and is left out.\<close>

record fraudAlert =
  a_transactionId :: ident
  a_userId :: ident
  a_ruleId :: ident
  a_alertType :: string
  a_severity :: string

record db =
  users :: "user list"
  transactions :: "transaction list"
  emailPayments :: "emailPayment list"
  disputes :: "dispute list"
  fraudRules :: "fraudRule list"
  fraudAlerts :: "fraudAlert list"

text \<open>The error codes of the JSON error responses.\<close>

datatype error =
    MISSING_FIELDS | INVALID_AMOUNT | SENDER_NOT_FOUND | INSUFFICIENT_BALANCE
  | RECIPIENT_NOT_FOUND | RECIPIENT_UNAVAILABLE | CANNOT_SEND_TO_SELF | SEND_MONEY_FAILED
  | NO_TOKEN | INVALID_TOKEN | AUTH_ERROR
  | USER_NOT_FOUND | ACCOUNT_SUSPENDED | ACCOUNT_DELETED
  | SEND_VIA_EMAIL_FAILED
  | MISSING_CLAIM_CODE | PAYMENT_NOT_FOUND | PAYMENT_EXPIRED | UNAUTHORIZED
  | CLAIM_PAYMENT_FAILED
  | PAYMENT_NOT_PENDING | CANCEL_PAYMENT_FAILED
  | MISSING_REASON | EMAIL_PAYMENT_NOT_FOUND | INVALID_PAYMENT_STATUS
  | CANCEL_EMAIL_PAYMENT_FAILED
  | TRANSACTION_NOT_FOUND | INVALID_TRANSACTION_STATUS | ALREADY_REFUNDED | REFUND_FAILED
  | DISPUTE_EXISTS | FILE_DISPUTE_FAILED
  | MISSING_RESOLUTION | DISPUTE_NOT_FOUND | DISPUTE_ALREADY_RESOLVED
  | INVALID_REFUND_AMOUNT | RESOLVE_DISPUTE_FAILED

text \<open>
  The \<open>amount\<close> field of a request body: absent or falsy, a text that \<open>parseFloat\<close> turns
  into NaN, or a number.
\<close>

datatype amount_input = NoAmount | NotNumeric | Numeric money

section \<open>Datastore primitives\<close>

text \<open>\<open>findUnique\<close> and \<open>findFirst\<close>: the first row that satisfies the filter, if any.\<close>

definition findFirst :: "('a \<Rightarrow> bool) \<Rightarrow> 'a list \<Rightarrow> 'a option" where
  "findFirst P rows = find P rows"

text \<open>
  \<open>update\<close> with a unique \<open>where\<close>: the first matching row is rewritten; \<open>None\<close> when no row
  matches (Prisma throws, and an enclosing \<open>$transaction\<close> rolls back).
\<close>

fun update_row :: "('a \<Rightarrow> bool) \<Rightarrow> ('a \<Rightarrow> 'a) \<Rightarrow> 'a list \<Rightarrow> 'a list option" where
  "update_row P f [] = None"
| "update_row P f (x # xs) =
     (if P x then Some (f x # xs)
      else (case update_row P f xs of None \<Rightarrow> None | Some ys \<Rightarrow> Some (x # ys)))"

text \<open>
  \<open>create\<close>: the row is appended; \<open>None\<close> when its primary key is already taken (the unique
  constraint makes Prisma throw).
\<close>

definition create_row :: "('a \<Rightarrow> ident) \<Rightarrow> 'a \<Rightarrow> 'a list \<Rightarrow> 'a list option" where
  "create_row key r rows = (if key r \<in> set (map key rows) then None else Some (rows @ [r]))"

definition increment :: "money \<Rightarrow> user \<Rightarrow> user" where
  "increment x u = u\<lparr>u_balance := u_balance u + x\<rparr>"

definition decrement :: "money \<Rightarrow> user \<Rightarrow> user" where
  "decrement x u = u\<lparr>u_balance := u_balance u - x\<rparr>"

text \<open>\<open>String.prototype.toLowerCase\<close>, on ASCII letters.\<close>

definition lower_char :: "char \<Rightarrow> char" where
  "lower_char c =
     (case map_of (zip ''ABCDEFGHIJKLMNOPQRSTUVWXYZ'' ''abcdefghijklmnopqrstuvwxyz'') c of
        None \<Rightarrow> c
      | Some l \<Rightarrow> l)"

definition toLowerCase :: "string \<Rightarrow> string" where
  "toLowerCase s = map lower_char s"

section \<open>User authentication middleware\<close>

text \<open>
  The object \<open>config.jwt\<close> of the configuration has the keys \<open>secret\<close>, \<open>expiresIn\<close>,
  \<open>refreshSecret\<close>, \<open>refreshExpiresIn\<close>, \<open>adminSecret\<close> and \<open>adminExpiresIn\<close>. The key
  \<open>accessSecret\<close> that the middleware reads is not among them, so the secret that it
  hands to \<open>jwt.verify\<close> is undefined.
\<close>

definition jwt_accessSecret :: "string option" where
  "jwt_accessSecret = None"

text \<open>
  \<open>authenticateUser\<close>. \<open>authorization\<close> is the \<open>Authorization\<close> header of the request.
  \<open>verify\<close> stands for \<open>jwt.verify\<close> of the library \<open>jsonwebtoken\<close>, which is not part of
  the sources: from the secret and the token it gives the \<open>userId\<close> of the decoded payload
  (\<open>None\<close> when the payload has none), or \<open>None\<close> when it throws. A lookup without an id
  makes the datastore throw, which the middleware answers with \<open>AUTH_ERROR\<close>. On success
  the request carries the id and the e-mail address of the user.
\<close>

definition authenticateUser ::
  "(string option \<Rightarrow> string \<Rightarrow> ident option option) \<Rightarrow> db \<Rightarrow> string option
     \<Rightarrow> error + (ident \<times> string)" where
  "authenticateUser verify s authorization =
     (case authorization of
        None \<Rightarrow> Inl NO_TOKEN
      | Some authHeader \<Rightarrow>
         (if authHeader = [] \<or> take 7 authHeader \<noteq> ''Bearer '' then Inl NO_TOKEN
          else (case verify jwt_accessSecret (drop 7 authHeader) of
            None \<Rightarrow> Inl INVALID_TOKEN
          | Some decoded \<Rightarrow>
             (case decoded of
                None \<Rightarrow> Inl AUTH_ERROR
              | Some uid \<Rightarrow>
                 (case findFirst (\<lambda>u. u_id u = uid) (users s) of
                    None \<Rightarrow> Inl USER_NOT_FOUND
                  | Some u \<Rightarrow>
                      if u_isSuspended u then Inl ACCOUNT_SUSPENDED
                      else if u_isDeleted u then Inl ACCOUNT_DELETED
                      else Inr (u_id u, u_email u))))))"

section \<open>Direct transfer\<close>

text \<open>
  \<open>sendMoney\<close>. \<open>now\<close> is the clock, \<open>newId\<close> the identifier that the datastore generates
  for the transaction row. An error response leaves the datastore as it was: every check
  returns before the first write, and a failure inside \<open>$transaction\<close> rolls back.
  The fire-and-forget fraud check that follows the commit is modelled on its own below.
\<close>

definition sendMoney ::
  "db \<Rightarrow> instant \<Rightarrow> ident \<Rightarrow> ident \<Rightarrow> string \<Rightarrow> amount_input \<Rightarrow> string \<Rightarrow> error + db" where
  "sendMoney s now newId senderId recipientEmail amount currency =
     (if recipientEmail = [] \<or> amount = NoAmount then Inl MISSING_FIELDS
      else (case amount of
        NoAmount \<Rightarrow> Inl MISSING_FIELDS
      | NotNumeric \<Rightarrow> Inl INVALID_AMOUNT
      | Numeric amountNum \<Rightarrow>
         (if amountNum \<le> 0 then Inl INVALID_AMOUNT
          else (case findFirst (\<lambda>u. u_id u = senderId) (users s) of
            None \<Rightarrow> Inl SENDER_NOT_FOUND
          | Some sender \<Rightarrow>
             (if u_balance sender < amountNum then Inl INSUFFICIENT_BALANCE
              else (case findFirst (\<lambda>u. u_email u = toLowerCase recipientEmail) (users s) of
                None \<Rightarrow> Inl RECIPIENT_NOT_FOUND
              | Some recipient \<Rightarrow>
                 (if u_isSuspended recipient \<or> u_isDeleted recipient
                  then Inl RECIPIENT_UNAVAILABLE
                  else if u_id sender = u_id recipient then Inl CANNOT_SEND_TO_SELF
                  else (case update_row (\<lambda>u. u_id u = senderId) (decrement amountNum)
                               (users s) of
                    None \<Rightarrow> Inl SEND_MONEY_FAILED
                  | Some us1 \<Rightarrow>
                     (case update_row (\<lambda>u. u_id u = u_id recipient) (increment amountNum) us1 of
                        None \<Rightarrow> Inl SEND_MONEY_FAILED
                      | Some us2 \<Rightarrow>
                         (case create_row t_id
                                 \<lparr> t_id = newId, t_senderId = senderId,
                                   t_recipientId = u_id recipient, t_amount = amountNum,
                                   t_currency = currency, t_transactionType = ''P2P'',
                                   t_status = ''COMPLETED'', t_isFlagged = False,
                                   t_isRefunded = False, t_createdAt = now,
                                   t_originalTransactionId = None, t_emailPaymentId = None,
                                   t_disputeId = None \<rparr>
                                 (transactions s) of
                            None \<Rightarrow> Inl SEND_MONEY_FAILED
                          | Some ts \<Rightarrow> Inr (s\<lparr>users := us2, transactions := ts\<rparr>)))))))))))"

text \<open>
  The route \<open>POST /transactions/send\<close>: \<open>authenticateUser\<close>, then \<open>sendMoney\<close> with the
  authenticated id as sender.
\<close>

definition post_transactions_send ::
  "(string option \<Rightarrow> string \<Rightarrow> ident option option) \<Rightarrow> db \<Rightarrow> instant \<Rightarrow> ident
     \<Rightarrow> string option \<Rightarrow> string \<Rightarrow> amount_input \<Rightarrow> string \<Rightarrow> error + db" where
  "post_transactions_send verify s now newId authorization recipientEmail amount currency =
     (case authenticateUser verify s authorization of
        Inl e \<Rightarrow> Inl e
      | Inr (senderId, _) \<Rightarrow> sendMoney s now newId senderId recipientEmail amount currency)"

text \<open>The datastore after a request: unchanged when the response is an error.\<close>

definition state_after :: "db \<Rightarrow> error + db \<Rightarrow> db" where
  "state_after s r = (case r of Inl _ \<Rightarrow> s | Inr s' \<Rightarrow> s')"

definition balance_of :: "db \<Rightarrow> ident \<Rightarrow> money option" where
  "balance_of s uid = map_option u_balance (findFirst (\<lambda>u. u_id u = uid) (users s))"

section \<open>Escrow: payments addressed to an e-mail\<close>

text \<open>
  \<open>sendViaEmail\<close>. \<open>claimCode\<close> is the random code that \<open>crypto.randomBytes\<close> produces and
  \<open>newId\<close> the generated row identifier. \<open>expiresAt\<close> is the date that the handler
  computes before the writes, with \<open>new Date()\<close> and
  \<open>setDate(getDate() + (expiryDays || 7))\<close>: the result depends on the calendar and time
  zone of the server and on the JSON type of \<open>expiryDays\<close>, so it is supplied like the
  clock. It is \<open>None\<close> for an invalid date, which the datastore refuses inside the
  transaction.
\<close>

definition sendViaEmail ::
  "db \<Rightarrow> ident \<Rightarrow> string \<Rightarrow> ident \<Rightarrow> string \<Rightarrow> amount_input \<Rightarrow> instant option
     \<Rightarrow> string \<Rightarrow> error + db" where
  "sendViaEmail s newId claimCode senderId recipientEmail amount expiresAt currency =
     (if recipientEmail = [] \<or> amount = NoAmount then Inl MISSING_FIELDS
      else (case amount of
        NoAmount \<Rightarrow> Inl MISSING_FIELDS
      | NotNumeric \<Rightarrow> Inl INVALID_AMOUNT
      | Numeric amountNum \<Rightarrow>
         (if amountNum \<le> 0 then Inl INVALID_AMOUNT
          else (case findFirst (\<lambda>u. u_id u = senderId) (users s) of
            None \<Rightarrow> Inl SENDER_NOT_FOUND
          | Some sender \<Rightarrow>
             (if u_balance sender < amountNum then Inl INSUFFICIENT_BALANCE
              else (case update_row (\<lambda>u. u_id u = senderId) (decrement amountNum) (users s) of
                None \<Rightarrow> Inl SEND_VIA_EMAIL_FAILED
              | Some us \<Rightarrow>
                 (case expiresAt of
                    None \<Rightarrow> Inl SEND_VIA_EMAIL_FAILED
                  | Some expiry \<Rightarrow>
                     (case create_row p_id
                             \<lparr> p_id = newId, p_senderId = senderId,
                               p_recipientEmail = toLowerCase recipientEmail,
                               p_amount = amountNum, p_currency = currency,
                               p_claimCode = claimCode, p_expiresAt = expiry,
                               p_status = ''PENDING'', p_claimedById = None \<rparr>
                             (emailPayments s) of
                        None \<Rightarrow> Inl SEND_VIA_EMAIL_FAILED
                      | Some ps \<Rightarrow> Inr (s\<lparr>users := us, emailPayments := ps\<rparr>)))))))))"

text \<open>\<open>claimPayment\<close>, called by the authenticated user \<open>userId\<close> with the claim code.\<close>

definition claimPayment :: "db \<Rightarrow> instant \<Rightarrow> ident \<Rightarrow> ident \<Rightarrow> string \<Rightarrow> error + db" where
  "claimPayment s now newId userId claimCode =
     (if claimCode = [] then Inl MISSING_CLAIM_CODE
      else (case findFirst (\<lambda>p. p_claimCode p = claimCode \<and> p_status p = ''PENDING'')
                   (emailPayments s) of
        None \<Rightarrow> Inl PAYMENT_NOT_FOUND
      | Some emailPayment \<Rightarrow>
         (if p_expiresAt emailPayment < now then Inl PAYMENT_EXPIRED
          else (case findFirst (\<lambda>u. u_id u = userId) (users s) of
            None \<Rightarrow> Inl USER_NOT_FOUND
          | Some user \<Rightarrow>
             (if u_email user \<noteq> p_recipientEmail emailPayment then Inl UNAUTHORIZED
              else (case update_row (\<lambda>p. p_id p = p_id emailPayment)
                           (\<lambda>p. p\<lparr>p_status := ''CLAIMED'', p_claimedById := Some userId\<rparr>)
                           (emailPayments s) of
                None \<Rightarrow> Inl CLAIM_PAYMENT_FAILED
              | Some ps \<Rightarrow>
                 (case update_row (\<lambda>u. u_id u = userId)
                         (increment (p_amount emailPayment)) (users s) of
                    None \<Rightarrow> Inl CLAIM_PAYMENT_FAILED
                  | Some us \<Rightarrow>
                     (case create_row t_id
                             \<lparr> t_id = newId, t_senderId = p_senderId emailPayment,
                               t_recipientId = userId, t_amount = p_amount emailPayment,
                               t_currency = p_currency emailPayment,
                               t_transactionType = ''EMAIL_PAYMENT'',
                               t_status = ''COMPLETED'', t_isFlagged = False,
                               t_isRefunded = False, t_createdAt = now,
                               t_originalTransactionId = None,
                               t_emailPaymentId = Some (p_id emailPayment),
                               t_disputeId = None \<rparr>
                             (transactions s) of
                        None \<Rightarrow> Inl CLAIM_PAYMENT_FAILED
                      | Some ts \<Rightarrow>
                          Inr (s\<lparr>users := us, transactions := ts,
                                 emailPayments := ps\<rparr>)))))))))"

text \<open>\<open>cancelPayment\<close>, called by the authenticated user \<open>userId\<close> on the payment \<open>pid\<close>.\<close>

definition cancelPayment :: "db \<Rightarrow> ident \<Rightarrow> ident \<Rightarrow> error + db" where
  "cancelPayment s userId pid =
     (case findFirst (\<lambda>p. p_id p = pid \<and> p_senderId p = userId) (emailPayments s) of
        None \<Rightarrow> Inl PAYMENT_NOT_FOUND
      | Some emailPayment \<Rightarrow>
         (if p_status emailPayment \<noteq> ''PENDING'' then Inl PAYMENT_NOT_PENDING
          else (case update_row (\<lambda>p. p_id p = pid) (\<lambda>p. p\<lparr>p_status := ''CANCELLED''\<rparr>)
                       (emailPayments s) of
            None \<Rightarrow> Inl CANCEL_PAYMENT_FAILED
          | Some ps \<Rightarrow>
             (case update_row (\<lambda>u. u_id u = userId)
                     (increment (p_amount emailPayment)) (users s) of
                None \<Rightarrow> Inl CANCEL_PAYMENT_FAILED
              | Some us \<Rightarrow> Inr (s\<lparr>users := us, emailPayments := ps\<rparr>)))))"

text \<open>The administrator's \<open>cancelEmailPayment\<close>; \<open>reason\<close> is the text of the request.\<close>

definition cancelEmailPayment :: "db \<Rightarrow> ident \<Rightarrow> string \<Rightarrow> error + db" where
  "cancelEmailPayment s pid reason =
     (if reason = [] then Inl MISSING_REASON
      else (case findFirst (\<lambda>p. p_id p = pid) (emailPayments s) of
        None \<Rightarrow> Inl EMAIL_PAYMENT_NOT_FOUND
      | Some emailPayment \<Rightarrow>
         (if p_status emailPayment \<noteq> ''PENDING'' then Inl INVALID_PAYMENT_STATUS
          else (case update_row (\<lambda>p. p_id p = pid) (\<lambda>p. p\<lparr>p_status := ''CANCELLED''\<rparr>)
                       (emailPayments s) of
            None \<Rightarrow> Inl CANCEL_EMAIL_PAYMENT_FAILED
          | Some ps \<Rightarrow>
             (case update_row (\<lambda>u. u_id u = p_senderId emailPayment)
                     (increment (p_amount emailPayment)) (users s) of
                None \<Rightarrow> Inl CANCEL_EMAIL_PAYMENT_FAILED
              | Some us \<Rightarrow> Inr (s\<lparr>users := us, emailPayments := ps\<rparr>))))))"

section \<open>Refunds and disputes\<close>

text \<open>The administrator's \<open>refundTransaction\<close> on the transaction \<open>tid\<close>.\<close>

definition refundTransaction :: "db \<Rightarrow> instant \<Rightarrow> ident \<Rightarrow> ident \<Rightarrow> string \<Rightarrow> error + db" where
  "refundTransaction s now newId tid reason =
     (if reason = [] then Inl MISSING_REASON
      else (case findFirst (\<lambda>t. t_id t = tid) (transactions s) of
        None \<Rightarrow> Inl TRANSACTION_NOT_FOUND
      | Some tx \<Rightarrow>
         (if t_status tx \<noteq> ''COMPLETED'' then Inl INVALID_TRANSACTION_STATUS
          else if t_isRefunded tx then Inl ALREADY_REFUNDED
          else (case update_row (\<lambda>t. t_id t = tid) (\<lambda>t. t\<lparr>t_isRefunded := True\<rparr>)
                       (transactions s) of
            None \<Rightarrow> Inl REFUND_FAILED
          | Some ts1 \<Rightarrow>
             (case update_row (\<lambda>u. u_id u = t_senderId tx) (increment (t_amount tx)) (users s) of
                None \<Rightarrow> Inl REFUND_FAILED
              | Some us1 \<Rightarrow>
                 (case update_row (\<lambda>u. u_id u = t_recipientId tx) (decrement (t_amount tx)) us1 of
                    None \<Rightarrow> Inl REFUND_FAILED
                  | Some us2 \<Rightarrow>
                     (case create_row t_id
                             \<lparr> t_id = newId, t_senderId = t_recipientId tx,
                               t_recipientId = t_senderId tx, t_amount = t_amount tx,
                               t_currency = t_currency tx, t_transactionType = ''REFUND'',
                               t_status = ''COMPLETED'', t_isFlagged = False,
                               t_isRefunded = False, t_createdAt = now,
                               t_originalTransactionId = Some (t_id tx),
                               t_emailPaymentId = None, t_disputeId = None \<rparr>
                             ts1 of
                        None \<Rightarrow> Inl REFUND_FAILED
                      | Some ts2 \<Rightarrow> Inr (s\<lparr>users := us2, transactions := ts2\<rparr>))))))))"

text \<open>\<open>fileDispute\<close>, called by the authenticated user \<open>userId\<close>.\<close>

definition fileDispute ::
  "db \<Rightarrow> ident \<Rightarrow> ident \<Rightarrow> ident \<Rightarrow> string \<Rightarrow> string \<Rightarrow> error + db" where
  "fileDispute s newId userId transactionId reason description =
     (if transactionId = [] \<or> reason = [] \<or> description = [] then Inl MISSING_FIELDS
      else (case findFirst (\<lambda>t. t_id t = transactionId \<and>
                                 (t_senderId t = userId \<or> t_recipientId t = userId))
                   (transactions s) of
        None \<Rightarrow> Inl TRANSACTION_NOT_FOUND
      | Some tx \<Rightarrow>
         (case findFirst (\<lambda>d. d_transactionId d = transactionId \<and> d_userId d = userId)
                 (disputes s) of
            Some existingDispute \<Rightarrow> Inl DISPUTE_EXISTS
          | None \<Rightarrow>
             (case create_row d_id
                     \<lparr> d_id = newId, d_userId = userId, d_transactionId = transactionId,
                       d_status = ''OPEN'', d_resolution = None, d_refundAmount = None \<rparr>
                     (disputes s) of
                None \<Rightarrow> Inl FILE_DISPUTE_FAILED
              | Some ds \<Rightarrow> Inr (s\<lparr>disputes := ds\<rparr>)))))"

text \<open>
  The refund step of \<open>resolveDispute\<close>, one \<open>$transaction\<close>: the sender of the disputed
  transaction is credited, its recipient debited, and a \<open>REFUND\<close> transaction recorded.
\<close>

definition dispute_refund ::
  "db \<Rightarrow> instant \<Rightarrow> ident \<Rightarrow> dispute \<Rightarrow> transaction \<Rightarrow> money \<Rightarrow> db option" where
  "dispute_refund s now newId dispute tx refundAmountNum =
     (case update_row (\<lambda>u. u_id u = t_senderId tx) (increment refundAmountNum) (users s) of
        None \<Rightarrow> None
      | Some us1 \<Rightarrow>
         (case update_row (\<lambda>u. u_id u = t_recipientId tx) (decrement refundAmountNum) us1 of
            None \<Rightarrow> None
          | Some us2 \<Rightarrow>
             (case create_row t_id
                     \<lparr> t_id = newId, t_senderId = t_recipientId tx,
                       t_recipientId = t_senderId tx, t_amount = refundAmountNum,
                       t_currency = t_currency tx, t_transactionType = ''REFUND'',
                       t_status = ''COMPLETED'', t_isFlagged = False,
                       t_isRefunded = False, t_createdAt = now,
                       t_originalTransactionId = Some (t_id tx),
                       t_emailPaymentId = None, t_disputeId = Some (d_id dispute) \<rparr>
                     (transactions s) of
                None \<Rightarrow> None
              | Some ts \<Rightarrow> Some (s\<lparr>users := us2, transactions := ts\<rparr>))))"

text \<open>
  The last write of \<open>resolveDispute\<close>: the dispute row becomes \<open>RESOLVED\<close>. The stored
  refund amount is null when the request's \<open>refundAmount\<close> is absent or zero.
\<close>

definition update_dispute :: "db \<Rightarrow> ident \<Rightarrow> string \<Rightarrow> money option \<Rightarrow> error + db" where
  "update_dispute s did resolution refundAmount =
     (case update_row (\<lambda>d. d_id d = did)
             (\<lambda>d. d\<lparr> d_status := ''RESOLVED'', d_resolution := Some resolution,
                     d_refundAmount :=
                       (case refundAmount of
                          None \<Rightarrow> None
                        | Some r \<Rightarrow> if r = 0 then None else Some r) \<rparr>)
             (disputes s) of
        None \<Rightarrow> Inl RESOLVE_DISPUTE_FAILED
      | Some ds \<Rightarrow> Inr (s\<lparr>disputes := ds\<rparr>))"

text \<open>
  The administrator's \<open>resolveDispute\<close> on the dispute \<open>did\<close>. \<open>refundAmount\<close> is \<open>None\<close> when
  the request has no such field. The dispute row is rewritten after the refund has
  committed; that write cannot fail, because the row was found at the start.
\<close>

definition resolveDispute ::
  "db \<Rightarrow> instant \<Rightarrow> ident \<Rightarrow> ident \<Rightarrow> string \<Rightarrow> money option \<Rightarrow> error + db" where
  "resolveDispute s now newId did resolution refundAmount =
     (if resolution = [] then Inl MISSING_RESOLUTION
      else (case findFirst (\<lambda>d. d_id d = did) (disputes s) of
        None \<Rightarrow> Inl DISPUTE_NOT_FOUND
      | Some dispute \<Rightarrow>
         (if d_status dispute = ''RESOLVED'' \<or> d_status dispute = ''CLOSED''
          then Inl DISPUTE_ALREADY_RESOLVED
          else (case refundAmount of
              None \<Rightarrow> update_dispute s did resolution refundAmount
            | Some refundAmountNum \<Rightarrow>
               (if \<not> 0 < refundAmountNum
                then update_dispute s did resolution refundAmount
                else (case findFirst (\<lambda>t. t_id t = d_transactionId dispute) (transactions s) of
                  None \<Rightarrow> Inl RESOLVE_DISPUTE_FAILED
                | Some tx \<Rightarrow>
                   (if t_amount tx < refundAmountNum then Inl INVALID_REFUND_AMOUNT
                    else (case dispute_refund s now newId dispute tx refundAmountNum of
                      None \<Rightarrow> Inl RESOLVE_DISPUTE_FAILED
                    | Some s1 \<Rightarrow> update_dispute s1 did resolution refundAmount))))))))"

section \<open>Fraud rules\<close>

text \<open>
  \<open>checkTransaction\<close> takes the transaction as a value of type \<open>any\<close> and reads four
  properties of it: \<open>id\<close>, \<open>senderId\<close>, \<open>amount\<close> and \<open>sender.createdAt\<close>.
\<close>

record checked =
  c_id :: ident
  c_senderId :: ident
  c_amount :: money
  c_senderCreatedAt :: instant

text \<open>\<open>x || d\<close> on an optional number: \<open>d\<close> when \<open>x\<close> is absent or zero.\<close>

definition or_default :: "'a::zero option \<Rightarrow> 'a \<Rightarrow> 'a" where
  "or_default x d = (case x of None \<Rightarrow> d | Some v \<Rightarrow> if v = 0 then d else v)"

definition checkVelocity :: "db \<Rightarrow> instant \<Rightarrow> conditions \<Rightarrow> checked \<Rightarrow> bool" where
  "checkVelocity s now cond tx =
     (let timeWindow = or_default (timeWindowMinutes cond) 60;
          maxTx = or_default (maxTransactions cond) 10;
          startTime = now - timeWindow * 60 * 1000;
          recentTransactions =
            length (filter (\<lambda>t. t_senderId t = c_senderId tx \<and> startTime \<le> t_createdAt t)
                      (transactions s))
      in maxTx \<le> int recentTransactions)"

definition checkAmountThreshold :: "conditions \<Rightarrow> checked \<Rightarrow> bool" where
  "checkAmountThreshold cond tx = (or_default (threshold cond) 10000 \<le> c_amount tx)"

definition checkGeographicAnomaly :: "conditions \<Rightarrow> checked \<Rightarrow> bool" where
  "checkGeographicAnomaly cond tx = False"

definition checkNewUserHighAmount :: "instant \<Rightarrow> conditions \<Rightarrow> checked \<Rightarrow> bool" where
  "checkNewUserHighAmount now cond tx =
     (let accountAge = now - c_senderCreatedAt tx;
          maxAge = or_default (maxAccountAgeDays cond) 7 * 24 * 60 * 60 * 1000;
          minAmt = or_default (minAmount cond) 1000
      in accountAge < maxAge \<and> minAmt \<le> c_amount tx)"

definition evaluateRule :: "db \<Rightarrow> instant \<Rightarrow> fraudRule \<Rightarrow> checked \<Rightarrow> bool" where
  "evaluateRule s now rule tx =
     (if r_ruleType rule = ''VELOCITY'' then checkVelocity s now (r_conditions rule) tx
      else if r_ruleType rule = ''AMOUNT_THRESHOLD''
        then checkAmountThreshold (r_conditions rule) tx
      else if r_ruleType rule = ''GEOGRAPHIC_ANOMALY''
        then checkGeographicAnomaly (r_conditions rule) tx
      else if r_ruleType rule = ''NEW_USER_HIGH_AMOUNT''
        then checkNewUserHighAmount now (r_conditions rule) tx
      else False)"

definition alert_for :: "fraudRule \<Rightarrow> checked \<Rightarrow> fraudAlert" where
  "alert_for rule tx =
     \<lparr> a_transactionId = c_id tx, a_userId = c_senderId tx, a_ruleId = r_id rule,
       a_alertType = r_ruleType rule, a_severity = r_severity rule \<rparr>"

text \<open>
  The loop of \<open>checkTransaction\<close> over the active rules: each triggered rule writes one
  alert row, and the alerts written are returned with the datastore.
\<close>

fun check_rules ::
  "db \<Rightarrow> instant \<Rightarrow> checked \<Rightarrow> fraudRule list \<Rightarrow> fraudAlert list \<times> db" where
  "check_rules s now tx [] = ([], s)"
| "check_rules s now tx (rule # rules) =
     (if evaluateRule s now rule tx
      then (let alert = alert_for rule tx;
                s1 = s\<lparr>fraudAlerts := fraudAlerts s @ [alert]\<rparr>;
                (alerts, s2) = check_rules s1 now tx rules
            in (alert # alerts, s2))
      else check_rules s now tx rules)"

definition checkTransaction :: "db \<Rightarrow> instant \<Rightarrow> checked \<Rightarrow> fraudAlert list \<times> db" where
  "checkTransaction s now tx = check_rules s now tx (filter r_isActive (fraudRules s))"

section \<open>Risk score\<close>

text \<open>
  \<open>calculateUserRiskScore\<close>. The query includes the relation \<open>transactions\<close> of the user,
  which the Prisma schema declares; \<open>rel u t\<close> says that the row \<open>t\<close> belongs to that
  relation of the user \<open>u\<close>. The relation \<open>disputes\<close> is the one \<open>fileDispute\<close> writes.
\<close>

definition calculateUserRiskScore ::
  "(user \<Rightarrow> transaction \<Rightarrow> bool) \<Rightarrow> db \<Rightarrow> instant \<Rightarrow> ident \<Rightarrow> int" where
  "calculateUserRiskScore rel s now userId =
     (case findFirst (\<lambda>u. u_id u = userId) (users s) of
        None \<Rightarrow> 0
      | Some user \<Rightarrow>
          let txs = filter (\<lambda>t. rel user t \<and> now - 30 * 24 * 60 * 60 * 1000 \<le> t_createdAt t)
                      (transactions s);
              dsp = filter (\<lambda>d. d_userId d = u_id user \<and>
                                 (d_status d = ''OPEN'' \<or> d_status d = ''IN_PROGRESS''))
                      (disputes s);
              score = 0;
              accountAgeDays = (of_int (now - u_createdAt user) :: rat) / (1000 * 60 * 60 * 24);
              score = (if accountAgeDays < 7 then score + 20
                       else if accountAgeDays < 30 then score + 10
                       else if accountAgeDays < 90 then score + 5
                       else score);
              score = (if u_kycStatus user = ''UNVERIFIED'' then score + 15
                       else if u_kycStatus user = ''PENDING'' then score + 10
                       else score);
              failedTxCount = int (length (filter (\<lambda>t. t_status t = ''FAILED'') txs));
              flaggedTxCount = int (length (filter t_isFlagged txs));
              score = score + failedTxCount * 3;
              score = score + flaggedTxCount * 5;
              score = score + int (length dsp) * 10;
              score = (if u_isFlagged user then score + 15 else score);
              txCount = int (length txs);
              score = (if 20 < txCount then score + 10 else score);
              score = (if 50 < txCount then score + 15 else score)
          in min score 100)"

section \<open>Sequences of operations\<close>

text \<open>
  The requests that write to the ledger, with the values that the environment supplies
  (clock, generated identifiers, claim code) as arguments.
\<close>

datatype op =
    Transfer instant ident ident string amount_input string
  | EscrowCreate ident string ident string amount_input "instant option" string
  | EscrowClaim instant ident ident string
  | EscrowCancel ident ident
  | AdminEscrowCancel ident string
  | AdminRefund instant ident ident string
  | DisputeFile ident ident ident string string
  | DisputeResolve instant ident ident string "money option"

fun apply_op :: "db \<Rightarrow> op \<Rightarrow> error + db" where
  "apply_op s (Transfer now newId senderId recipientEmail amount currency) =
     sendMoney s now newId senderId recipientEmail amount currency"
| "apply_op s (EscrowCreate newId claimCode senderId recipientEmail amount expiresAt currency) =
     sendViaEmail s newId claimCode senderId recipientEmail amount expiresAt currency"
| "apply_op s (EscrowClaim now newId userId claimCode) = claimPayment s now newId userId claimCode"
| "apply_op s (EscrowCancel userId pid) = cancelPayment s userId pid"
| "apply_op s (AdminEscrowCancel pid reason) = cancelEmailPayment s pid reason"
| "apply_op s (AdminRefund now newId tid reason) = refundTransaction s now newId tid reason"
| "apply_op s (DisputeFile newId userId transactionId reason description) =
     fileDispute s newId userId transactionId reason description"
| "apply_op s (DisputeResolve now newId did resolution refundAmount) =
     resolveDispute s now newId did resolution refundAmount"

text \<open>
  A request that is answered with an error leaves the datastore unchanged; the next
  request then runs on the same state.
\<close>

fun exec :: "db \<Rightarrow> op list \<Rightarrow> db" where
  "exec s [] = s"
| "exec s (x # xs) = exec (state_after s (apply_op s x)) xs"

text \<open>
  The value held by the system: the balances of all accounts, and the amounts of the
  e-mail payments that are still pending.
\<close>

definition pending_total :: "emailPayment list \<Rightarrow> money" where
  "pending_total ps = sum_list (map p_amount (filter (\<lambda>p. p_status p = ''PENDING'') ps))"

definition total_value :: "db \<Rightarrow> money" where
  "total_value s = sum_list (map u_balance (users s)) + pending_total (emailPayments s)"

text \<open>The primary key of the e-mail payment table is unique.\<close>

definition holds_wf :: "db \<Rightarrow> bool" where
  "holds_wf s = distinct (map p_id (emailPayments s))"

section \<open>Example data\<close>

definition example_user :: "ident \<Rightarrow> string \<Rightarrow> money \<Rightarrow> user" where
  "example_user i e b =
     \<lparr> u_id = i, u_email = e, u_balance = b, u_isSuspended = False, u_isDeleted = False,
       u_kycStatus = ''VERIFIED'', u_isFlagged = False, u_createdAt = 0 \<rparr>"

definition ledger0 :: db where
  "ledger0 =
     \<lparr> users = [example_user ''A'' ''a@x.com'' 100, example_user ''B'' ''b@x.com'' 0,
                example_user ''C'' ''c@x.com'' 0],
       transactions = [], emailPayments = [], disputes = [], fraudRules = [],
       fraudAlerts = [] \<rparr>"

definition scenario_ops :: "op list" where
  "scenario_ops =
     [Transfer 1000 ''t1'' ''A'' ''B@x.com'' (Numeric 40) ''USDC'',
      Transfer 2000 ''t2'' ''A'' ''b@x.com'' (Numeric 80) ''USDC'',
      EscrowCreate ''p1'' ''c0de'' ''A'' ''b@x.com'' (Numeric 25) (Some 604803000) ''USDC'',
      EscrowClaim 4000 ''t3'' ''B'' ''c0de'',
      EscrowClaim 5000 ''t4'' ''B'' ''c0de'']"

definition example_tx ::
  "ident \<Rightarrow> ident \<Rightarrow> ident \<Rightarrow> money \<Rightarrow> string \<Rightarrow> instant \<Rightarrow> transaction" where
  "example_tx i a b x st created =
     \<lparr> t_id = i, t_senderId = a, t_recipientId = b, t_amount = x, t_currency = ''USDC'',
       t_transactionType = ''P2P'', t_status = st, t_isFlagged = False, t_isRefunded = False,
       t_createdAt = created, t_originalTransactionId = None, t_emailPaymentId = None,
       t_disputeId = None \<rparr>"

definition example_rule :: "ident \<Rightarrow> string \<Rightarrow> fraudRule" where
  "example_rule i ty =
     \<lparr> r_id = i, r_ruleType = ty,
       r_conditions = \<lparr> timeWindowMinutes = Some 60, maxTransactions = Some 3,
                        threshold = None, maxAccountAgeDays = None, minAmount = None \<rparr>,
       r_severity = ''HIGH'', r_isActive = True \<rparr>"

definition example_checked :: "ident \<Rightarrow> ident \<Rightarrow> money \<Rightarrow> checked" where
  "example_checked i a x = \<lparr> c_id = i, c_senderId = a, c_amount = x, c_senderCreatedAt = 0 \<rparr>"

text \<open>The recipient of a transfer spends the money; then the transfer is refunded.\<close>

definition refund_ops :: "op list" where
  "refund_ops =
     [Transfer 1000 ''t1'' ''A'' ''b@x.com'' (Numeric 40) ''USDC'',
      Transfer 2000 ''t2'' ''B'' ''c@x.com'' (Numeric 40) ''USDC'',
      AdminRefund 3000 ''t3'' ''t1'' ''sent by mistake'']"

definition dispute_ops :: "op list" where
  "dispute_ops =
     [Transfer 1000 ''t1'' ''A'' ''b@x.com'' (Numeric 40) ''USDC'',
      Transfer 2000 ''t2'' ''B'' ''c@x.com'' (Numeric 40) ''USDC'',
      DisputeFile ''d1'' ''A'' ''t1'' ''not received'' ''goods never arrived'',
      DisputeResolve 3000 ''t3'' ''d1'' ''refund granted'' (Some 30)]"

text \<open>
  A transfer followed by an e-mail payment of 25, created at 3000 with an expiry seven
  days later.
\<close>

definition escrow_ops :: "op list" where
  "escrow_ops =
     [Transfer 1000 ''t1'' ''A'' ''b@x.com'' (Numeric 40) ''USDC'',
      EscrowCreate ''p1'' ''c0de'' ''A'' ''B@x.com'' (Numeric 25) (Some 604803000) ''USDC'']"


text \<open>A transfer, disputed by its sender; the dispute is resolved without a refund.\<close>

definition resolved_ops :: "op list" where
  "resolved_ops =
     [Transfer 1000 ''t1'' ''A'' ''b@x.com'' (Numeric 40) ''USDC'',
      DisputeFile ''d1'' ''A'' ''t1'' ''not received'' ''goods never arrived'',
      DisputeResolve 3000 ''t2'' ''d1'' ''rejected'' None]"

text \<open>Four transfers of one sender within four minutes, under one active velocity rule.\<close>

definition four_transfers :: "op list" where
  "four_transfers =
     [Transfer 60000 ''t1'' ''A'' ''b@x.com'' (Numeric 10) ''USDC'',
      Transfer 120000 ''t2'' ''A'' ''b@x.com'' (Numeric 10) ''USDC'',
      Transfer 180000 ''t3'' ''A'' ''c@x.com'' (Numeric 10) ''USDC'',
      Transfer 240000 ''t4'' ''A'' ''b@x.com'' (Numeric 10) ''USDC'']"

definition velocity_db :: db where
  "velocity_db = exec (ledger0\<lparr>fraudRules := [example_rule ''r1'' ''VELOCITY'']\<rparr>) four_transfers"

text \<open>Three failed transactions of one sender, under one active velocity rule.\<close>

definition failed_db :: db where
  "failed_db = ledger0\<lparr> transactions :=
       [example_tx ''t1'' ''A'' ''B'' 10 ''FAILED'' 1000,
        example_tx ''t2'' ''A'' ''B'' 10 ''FAILED'' 2000,
        example_tx ''t3'' ''A'' ''B'' 10 ''FAILED'' 3000],
     fraudRules := [example_rule ''r1'' ''VELOCITY''] \<rparr>"



text \<open>
  One account, created at 0, with no transactions, no disputes and no flag, in the KYC
  state \<open>st\<close>. Registration stores the state \<open>NONE\<close>.
\<close>

definition kyc_db :: "string \<Rightarrow> db" where
  "kyc_db st = ledger0\<lparr>users := [(example_user ''N'' ''n@x.com'' 0)\<lparr>u_kycStatus := st\<rparr>]\<rparr>"

section \<open>Predicates of the specification\<close>

text \<open>All balances are at least zero.\<close>

definition nonnegative :: "db \<Rightarrow> bool" where
  "nonnegative s \<longleftrightarrow> list_all (\<lambda>u. 0 \<le> u_balance u) (users s)"

text \<open>
  The conditions under which \<open>claimPayment\<close> answers with success: a claim code is given,
  the first pending payment with that code is \<open>h\<close> and has not expired before \<open>now\<close>, and
  the claiming user \<open>u\<close> exists and has the e-mail address the payment was sent to.
\<close>

definition claimable :: "db \<Rightarrow> instant \<Rightarrow> ident \<Rightarrow> string \<Rightarrow> emailPayment \<Rightarrow> user \<Rightarrow> bool" where
  "claimable s now userId claimCode h u \<longleftrightarrow>
     claimCode \<noteq> []
     \<and> findFirst (\<lambda>p. p_claimCode p = claimCode \<and> p_status p = ''PENDING'') (emailPayments s) = Some h
     \<and> now \<le> p_expiresAt h
     \<and> findFirst (\<lambda>u. u_id u = userId) (users s) = Some u
     \<and> u_email u = p_recipientEmail h"

text \<open>
  The velocity rule in the words of the specification: the completed movements of the
  sender within the trailing window are counted, and the rule triggers when the count
  reaches the maximum.
\<close>

definition spec_velocity :: "db \<Rightarrow> instant \<Rightarrow> int \<Rightarrow> int \<Rightarrow> ident \<Rightarrow> bool" where
  "spec_velocity s now windowMinutes maxCount sender =
     (maxCount \<le> int (length (filter
        (\<lambda>t. t_status t = ''COMPLETED'' \<and> t_senderId t = sender
              \<and> now - windowMinutes * 60 * 1000 \<le> t_createdAt t)
        (transactions s))))"

section \<open>Properties of the datastore primitives\<close>

lemmas eval_defs = ledger0_def example_user_def state_after_def balance_of_def findFirst_def
  toLowerCase_def lower_char_def create_row_def increment_def decrement_def

lemmas op_defs = sendMoney_def sendViaEmail_def claimPayment_def cancelPayment_def
  cancelEmailPayment_def refundTransaction_def fileDispute_def resolveDispute_def
  dispute_refund_def update_dispute_def

lemma findFirst_SomeD: "findFirst P rows = Some x \<Longrightarrow> x \<in> set rows \<and> P x"
  unfolding findFirst_def by (induction rows) (auto split: if_splits)

lemma findFirst_None_iff: "findFirst P rows = None \<longleftrightarrow> (\<forall>x \<in> set rows. \<not> P x)"
  unfolding findFirst_def by (auto simp: find_None_iff)

lemma update_row_None_iff: "update_row P f rows = None \<longleftrightarrow> findFirst P rows = None"
  unfolding findFirst_def by (induction rows) (auto split: option.splits)

lemma update_row_defined:
  "findFirst P rows = Some x \<Longrightarrow> \<exists>rows'. update_row P f rows = Some rows'"
  using update_row_None_iff [of P f rows] by (cases "update_row P f rows") auto

lemma update_row_keys:
  "update_row P f rows = Some rows' \<Longrightarrow> (\<And>x. key (f x) = key x) \<Longrightarrow> map key rows' = map key rows"
  by (induction rows arbitrary: rows') (auto split: if_splits option.splits)

lemma update_row_sum:
  fixes g :: "'a \<Rightarrow> rat"
  shows "update_row P f rows = Some rows' \<Longrightarrow> findFirst P rows = Some x \<Longrightarrow>
    sum_list (map g rows') = sum_list (map g rows) - g x + g (f x)"
  unfolding findFirst_def
  by (induction rows arbitrary: rows') (auto split: if_splits option.splits)

lemma update_row_find_key:
  "update_row (\<lambda>x. key x = k) f rows = Some rows' \<Longrightarrow> (\<And>x. key (f x) = key x) \<Longrightarrow>
   findFirst (\<lambda>x. key x = k') rows' =
     (if k' = k then map_option f (findFirst (\<lambda>x. key x = k) rows)
      else findFirst (\<lambda>x. key x = k') rows)"
  unfolding findFirst_def
  by (induction rows arbitrary: rows') (auto split: if_splits option.splits)

lemma findFirst_key_distinct:
  "distinct (map key rows) \<Longrightarrow> x \<in> set rows \<Longrightarrow> findFirst (\<lambda>y. key y = key x) rows = Some x"
  unfolding findFirst_def by (induction rows) (auto simp: image_iff)

lemma create_row_Some_iff:
  "create_row key r rows = Some rows' \<longleftrightarrow> key r \<notin> set (map key rows) \<and> rows' = rows @ [r]"
  unfolding create_row_def by auto

lemma update_row_found:
  "update_row P f rows = Some rows' \<Longrightarrow> \<exists>x. findFirst P rows = Some x"
  using update_row_None_iff [of P f rows] by (cases "findFirst P rows") auto

lemma increment_total:
  assumes "update_row P (increment a) us = Some us'"
  shows "sum_list (map u_balance us') = sum_list (map u_balance us) + a"
proof -
  obtain x where x: "findFirst P us = Some x"
    using update_row_found [OF assms] by blast
  show ?thesis
    using update_row_sum [OF assms x, of u_balance] by (simp add: increment_def)
qed

lemma decrement_total:
  assumes "update_row P (decrement a) us = Some us'"
  shows "sum_list (map u_balance us') = sum_list (map u_balance us) - a"
proof -
  obtain x where x: "findFirst P us = Some x"
    using update_row_found [OF assms] by blast
  show ?thesis
    using update_row_sum [OF assms x, of u_balance] by (simp add: decrement_def)
qed

lemma increment_id [simp]: "u_id (increment a u) = u_id u"
  by (simp add: increment_def)

lemma decrement_id [simp]: "u_id (decrement a u) = u_id u"
  by (simp add: decrement_def)

lemma update_row_map:
  "distinct (map key rows) \<Longrightarrow> update_row (\<lambda>x. key x = k) f rows = Some rows' \<Longrightarrow>
   rows' = map (\<lambda>x. if key x = k then f x else x) rows"
proof (induction rows arbitrary: rows')
  case Nil
  then show ?case by simp
next
  case (Cons x xs)
  show ?case
  proof (cases "key x = k")
    case True
    then have "\<forall>y \<in> set xs. key y \<noteq> k"
      using Cons.prems(1) by (auto simp: image_iff)
    then have "map (\<lambda>x. if key x = k then f x else x) xs = xs"
      by (induction xs) auto
    then show ?thesis
      using True Cons.prems(2) by auto
  next
    case False
    then show ?thesis
      using Cons by (auto split: option.splits)
  qed
qed

lemma distinct_map_eq:
  "distinct (map g rows) \<Longrightarrow> x \<in> set rows \<Longrightarrow> y \<in> set rows \<Longrightarrow> g x = g y \<Longrightarrow> x = y"
  by (meson distinct_map inj_onD)

lemma update_row_set:
  "update_row P f rows = Some rows' \<Longrightarrow> findFirst P rows = Some x \<Longrightarrow>
   set rows' \<subseteq> insert (f x) (set rows)"
  unfolding findFirst_def
  by (induction rows arbitrary: rows') (auto split: if_splits option.splits)

section \<open>The transfer scenario\<close>

text \<open>
  C1. An account with balance 100 sends 40 to an account with balance 0: the transfer
  succeeds, the balances become 60 and 40, and exactly one transaction row, of status
  \<open>COMPLETED\<close>, is added. A following transfer of 80 between the same accounts is answered
  with \<open>INSUFFICIENT_BALANCE\<close> and changes nothing.
\<close>

theorem sendMoney_scenario:
  assumes A: "findFirst (\<lambda>u. u_id u = a) (users s) = Some ua" and balA: "u_balance ua = 100"
    and B: "findFirst (\<lambda>u. u_email u = toLowerCase e) (users s) = Some ub"
    and balB: "u_balance ub = 0"
    and okB: "\<not> u_isSuspended ub" "\<not> u_isDeleted ub"
    and ne: "u_id ub \<noteq> a"
    and e: "e \<noteq> []"
    and ids: "distinct (map u_id (users s))"
    and fresh: "t1 \<notin> set (map t_id (transactions s))"
  shows "\<exists>s1 tx. sendMoney s now1 t1 a e (Numeric 40) cur = Inr s1
     \<and> balance_of s1 a = Some 60 \<and> balance_of s1 (u_id ub) = Some 40
     \<and> transactions s1 = transactions s @ [tx] \<and> t_status tx = ''COMPLETED''
     \<and> t_senderId tx = a \<and> t_recipientId tx = u_id ub \<and> t_amount tx = 40
     \<and> sendMoney s1 now2 t2 a e (Numeric 80) cur = Inl INSUFFICIENT_BALANCE
     \<and> state_after s1 (sendMoney s1 now2 t2 a e (Numeric 80) cur) = s1"
proof -
  have ida: "u_id ua = a"
    using findFirst_SomeD [OF A] by simp
  have Bid: "findFirst (\<lambda>u. u_id u = u_id ub) (users s) = Some ub"
    using findFirst_key_distinct [OF ids] findFirst_SomeD [OF B] by blast
  obtain us1 where us1: "update_row (\<lambda>u. u_id u = a) (decrement 40) (users s) = Some us1"
    using update_row_defined [OF A] by blast
  have f1a: "findFirst (\<lambda>u. u_id u = a) us1 = Some (decrement 40 ua)"
    using update_row_find_key [where key = u_id and k = a and k' = a, OF us1] A by simp
  have f1b: "findFirst (\<lambda>u. u_id u = u_id ub) us1 = Some ub"
    using update_row_find_key [where key = u_id and k = a and k' = "u_id ub", OF us1] Bid ne by simp
  obtain us2 where us2: "update_row (\<lambda>u. u_id u = u_id ub) (increment 40) us1 = Some us2"
    using update_row_defined [OF f1b] by blast
  have f2a: "findFirst (\<lambda>u. u_id u = a) us2 = Some (decrement 40 ua)"
    using update_row_find_key [where key = u_id and k = "u_id ub" and k' = a, OF us2] f1a ne by auto
  have f2b: "findFirst (\<lambda>u. u_id u = u_id ub) us2 = Some (increment 40 ub)"
    using update_row_find_key [where key = u_id and k = "u_id ub" and k' = "u_id ub", OF us2] f1b by simp
  define tx where "tx = \<lparr> t_id = t1, t_senderId = a, t_recipientId = u_id ub, t_amount = 40,
     t_currency = cur, t_transactionType = ''P2P'', t_status = ''COMPLETED'',
     t_isFlagged = False, t_isRefunded = False, t_createdAt = now1,
     t_originalTransactionId = None, t_emailPaymentId = None, t_disputeId = None \<rparr>"
  define s1 where "s1 = s\<lparr>users := us2, transactions := transactions s @ [tx]\<rparr>"
  have cr: "create_row t_id tx (transactions s) = Some (transactions s @ [tx])"
    using fresh by (simp add: create_row_def tx_def)
  have first: "sendMoney s now1 t1 a e (Numeric 40) cur = Inr s1"
    using A B balA okB ne e ida us1 us2 cr
    by (simp add: sendMoney_def s1_def tx_def)
  have ba: "balance_of s1 a = Some 60"
    using f2a balA by (simp add: balance_of_def s1_def decrement_def)
  have bb: "balance_of s1 (u_id ub) = Some 40"
    using f2b balB by (simp add: balance_of_def s1_def increment_def)
  have second: "sendMoney s1 now2 t2 a e (Numeric 80) cur = Inl INSUFFICIENT_BALANCE"
    using f2a balA e by (simp add: sendMoney_def s1_def decrement_def)
  show ?thesis
    using first ba bb second by (intro exI [of _ s1] exI [of _ tx]) (simp add: s1_def tx_def state_after_def)
qed

theorem sendMoney_scenario_witness:
  "\<exists>s1 tx. sendMoney ledger0 1000 ''t1'' ''A'' ''B@x.com'' (Numeric 40) ''USDC'' = Inr s1
     \<and> balance_of s1 ''A'' = Some 60 \<and> balance_of s1 ''B'' = Some 40
     \<and> transactions s1 = transactions ledger0 @ [tx] \<and> t_status tx = ''COMPLETED''
     \<and> t_senderId tx = ''A'' \<and> t_recipientId tx = ''B'' \<and> t_amount tx = 40
     \<and> sendMoney s1 2000 ''t2'' ''A'' ''B@x.com'' (Numeric 80) ''USDC'' = Inl INSUFFICIENT_BALANCE
     \<and> state_after s1 (sendMoney s1 2000 ''t2'' ''A'' ''B@x.com'' (Numeric 80) ''USDC'') = s1"
  using sendMoney_scenario [of "''A''" ledger0 "example_user ''A'' ''a@x.com'' 100" "''B@x.com''"
      "example_user ''B'' ''b@x.com'' 0" "''t1''" 1000 "''USDC''" 2000 "''t2''"]
  by (simp add: ledger0_def example_user_def findFirst_def toLowerCase_def lower_char_def)

section \<open>Senders that are suspended or deleted\<close>

text \<open>
  The only test of the sender's status is in the middleware. It is reached when the token
  verifies; with the undefined secret of the configuration, a library that refuses to
  verify without a secret makes the route answer every request with \<open>NO_TOKEN\<close> or
  \<open>INVALID_TOKEN\<close>.
\<close>

lemma route_rejects_suspended:
  assumes "verify jwt_accessSecret token = Some (Some uid)"
    and "findFirst (\<lambda>u. u_id u = uid) (users s) = Some u"
    and "u_isSuspended u \<or> u_isDeleted u"
  shows "post_transactions_send verify s now newId (Some (''Bearer '' @ token))
           recipientEmail amount currency
         \<in> {Inl ACCOUNT_SUSPENDED, Inl ACCOUNT_DELETED}"
  using assms by (auto simp: post_transactions_send_def authenticateUser_def)

lemma route_without_secret:
  assumes "\<And>token. verify None token = None"
  shows "post_transactions_send verify s now newId authorization recipientEmail amount currency
         \<in> {Inl NO_TOKEN, Inl INVALID_TOKEN}"
  using assms
  by (auto simp: post_transactions_send_def authenticateUser_def jwt_accessSecret_def
           split: option.splits)

text \<open>\<open>sendMoney\<close> rejects a transfer to a recipient that is suspended or deleted.\<close>

lemma recipient_status_checked:
  assumes "findFirst (\<lambda>u. u_email u = toLowerCase recipientEmail) (users s) = Some recipient"
    and "u_isSuspended recipient \<or> u_isDeleted recipient"
  shows "isl (sendMoney s now newId senderId recipientEmail amount currency)"
  using assms by (auto simp: sendMoney_def split: amount_input.splits option.splits)


section \<open>Conservation of value\<close>

lemma pending_total_alt:
  "pending_total ps = sum_list (map (\<lambda>p. if p_status p = ''PENDING'' then p_amount p else 0) ps)"
  unfolding pending_total_def by (induction ps) auto

lemma pending_total_append:
  "pending_total (ps @ [p]) = pending_total ps + (if p_status p = ''PENDING'' then p_amount p else 0)"
  unfolding pending_total_def by simp

lemma pending_total_update:
  assumes "update_row P f ps = Some ps'" and "findFirst P ps = Some h"
  shows "pending_total ps' = pending_total ps
           - (if p_status h = ''PENDING'' then p_amount h else 0)
           + (if p_status (f h) = ''PENDING'' then p_amount (f h) else 0)"
  unfolding pending_total_alt
  using update_row_sum [OF assms, of "\<lambda>p. if p_status p = ''PENDING'' then p_amount p else 0"]
  by simp

lemma sendMoney_conserves:
  assumes "sendMoney s now newId senderId recipientEmail amount currency = Inr s'"
  shows "total_value s' = total_value s \<and> emailPayments s' = emailPayments s"
  using assms
  by (auto simp: sendMoney_def total_value_def increment_total decrement_total
           split: if_splits option.splits amount_input.splits)

lemma sendViaEmail_conserves:
  assumes "sendViaEmail s newId claimCode senderId recipientEmail amount expiresAt currency = Inr s'"
    and "holds_wf s"
  shows "total_value s' = total_value s \<and> holds_wf s'"
  using assms
  by (auto simp: sendViaEmail_def total_value_def holds_wf_def decrement_total Let_def
                 create_row_Some_iff pending_total_append
           split: if_splits option.splits amount_input.splits)

lemma claimPayment_conserves:
  assumes ok: "claimPayment s now newId userId claimCode = Inr s'" and wf: "holds_wf s"
  shows "total_value s' = total_value s \<and> holds_wf s'"
proof -
  from ok obtain h ps us where
    h: "findFirst (\<lambda>p. p_claimCode p = claimCode \<and> p_status p = ''PENDING'') (emailPayments s) = Some h"
    and ps: "update_row (\<lambda>p. p_id p = p_id h)
               (\<lambda>p. p\<lparr>p_status := ''CLAIMED'', p_claimedById := Some userId\<rparr>) (emailPayments s) = Some ps"
    and us: "update_row (\<lambda>u. u_id u = userId) (increment (p_amount h)) (users s) = Some us"
    and s': "users s' = us" "emailPayments s' = ps"
    by (auto simp: claimPayment_def split: if_splits option.splits)
  have hin: "h \<in> set (emailPayments s)" and hp: "p_status h = ''PENDING''"
    using findFirst_SomeD [OF h] by auto
  have hid: "findFirst (\<lambda>p. p_id p = p_id h) (emailPayments s) = Some h"
    using findFirst_key_distinct [of p_id, OF _ hin] wf by (simp add: holds_wf_def)
  have "pending_total ps = pending_total (emailPayments s) - p_amount h"
    using pending_total_update [OF ps hid] hp by simp
  moreover have "sum_list (map u_balance us) = sum_list (map u_balance (users s)) + p_amount h"
    by (rule increment_total [OF us])
  moreover have "map p_id ps = map p_id (emailPayments s)"
    by (rule update_row_keys [OF ps]) simp
  ultimately show ?thesis
    using s' wf by (simp add: total_value_def holds_wf_def)
qed

lemma cancelPayment_conserves:
  assumes ok: "cancelPayment s userId pid = Inr s'" and wf: "holds_wf s"
  shows "total_value s' = total_value s \<and> holds_wf s'"
proof -
  from ok obtain h ps us where
    h: "findFirst (\<lambda>p. p_id p = pid \<and> p_senderId p = userId) (emailPayments s) = Some h"
    and hp: "p_status h = ''PENDING''"
    and ps: "update_row (\<lambda>p. p_id p = pid) (\<lambda>p. p\<lparr>p_status := ''CANCELLED''\<rparr>) (emailPayments s) = Some ps"
    and us: "update_row (\<lambda>u. u_id u = userId) (increment (p_amount h)) (users s) = Some us"
    and s': "users s' = us" "emailPayments s' = ps"
    by (auto simp: cancelPayment_def split: if_splits option.splits)
  have hin: "h \<in> set (emailPayments s)" and pid: "p_id h = pid"
    using findFirst_SomeD [OF h] by auto
  have hid: "findFirst (\<lambda>p. p_id p = pid) (emailPayments s) = Some h"
    using findFirst_key_distinct [of p_id, OF _ hin] wf pid by (simp add: holds_wf_def)
  have "pending_total ps = pending_total (emailPayments s) - p_amount h"
    using pending_total_update [OF ps hid] hp by simp
  moreover have "sum_list (map u_balance us) = sum_list (map u_balance (users s)) + p_amount h"
    by (rule increment_total [OF us])
  moreover have "map p_id ps = map p_id (emailPayments s)"
    by (rule update_row_keys [OF ps]) simp
  ultimately show ?thesis
    using s' wf by (simp add: total_value_def holds_wf_def)
qed

lemma cancelEmailPayment_conserves:
  assumes ok: "cancelEmailPayment s pid reason = Inr s'" and wf: "holds_wf s"
  shows "total_value s' = total_value s \<and> holds_wf s'"
proof -
  from ok obtain h ps us where
    h: "findFirst (\<lambda>p. p_id p = pid) (emailPayments s) = Some h"
    and hp: "p_status h = ''PENDING''"
    and ps: "update_row (\<lambda>p. p_id p = pid) (\<lambda>p. p\<lparr>p_status := ''CANCELLED''\<rparr>) (emailPayments s) = Some ps"
    and us: "update_row (\<lambda>u. u_id u = p_senderId h) (increment (p_amount h)) (users s) = Some us"
    and s': "users s' = us" "emailPayments s' = ps"
    by (auto simp: cancelEmailPayment_def split: if_splits option.splits)
  have "pending_total ps = pending_total (emailPayments s) - p_amount h"
    using pending_total_update [OF ps h] hp by simp
  moreover have "sum_list (map u_balance us) = sum_list (map u_balance (users s)) + p_amount h"
    by (rule increment_total [OF us])
  moreover have "map p_id ps = map p_id (emailPayments s)"
    by (rule update_row_keys [OF ps]) simp
  ultimately show ?thesis
    using s' wf by (simp add: total_value_def holds_wf_def)
qed

lemma refundTransaction_conserves:
  assumes "refundTransaction s now newId tid reason = Inr s'"
  shows "total_value s' = total_value s \<and> emailPayments s' = emailPayments s"
  using assms
  by (auto simp: refundTransaction_def total_value_def increment_total decrement_total
           split: if_splits option.splits)

lemma fileDispute_conserves:
  assumes "fileDispute s newId userId transactionId reason description = Inr s'"
  shows "total_value s' = total_value s \<and> emailPayments s' = emailPayments s"
  using assms
  by (auto simp: fileDispute_def total_value_def split: if_splits option.splits)

lemma update_dispute_conserves:
  assumes "update_dispute s did resolution refundAmount = Inr s'"
  shows "users s' = users s \<and> emailPayments s' = emailPayments s \<and> transactions s' = transactions s"
  using assms by (auto simp: update_dispute_def split: option.splits)

lemma dispute_refund_conserves:
  assumes "dispute_refund s now newId d tx r = Some s'"
  shows "total_value s' = total_value s \<and> emailPayments s' = emailPayments s"
  using assms
  by (auto simp: dispute_refund_def total_value_def increment_total decrement_total
           split: option.splits)

lemma resolveDispute_conserves:
  assumes "resolveDispute s now newId did resolution refundAmount = Inr s'"
  shows "total_value s' = total_value s \<and> emailPayments s' = emailPayments s"
  using assms
  by (auto simp: resolveDispute_def total_value_def
           dest!: update_dispute_conserves dispute_refund_conserves
           split: if_splits option.splits)

lemma apply_op_conserves:
  assumes "apply_op s x = Inr s'" and "holds_wf s"
  shows "total_value s' = total_value s \<and> holds_wf s'"
proof (cases x)
  case Transfer
  with assms show ?thesis using sendMoney_conserves by (auto simp: holds_wf_def)
next
  case EscrowCreate
  with assms show ?thesis using sendViaEmail_conserves by auto
next
  case EscrowClaim
  with assms show ?thesis using claimPayment_conserves by auto
next
  case EscrowCancel
  with assms show ?thesis using cancelPayment_conserves by auto
next
  case AdminEscrowCancel
  with assms show ?thesis using cancelEmailPayment_conserves by auto
next
  case AdminRefund
  with assms show ?thesis using refundTransaction_conserves by (auto simp: holds_wf_def)
next
  case DisputeFile
  with assms show ?thesis using fileDispute_conserves by (auto simp: holds_wf_def)
next
  case DisputeResolve
  with assms show ?thesis using resolveDispute_conserves by (auto simp: holds_wf_def)
qed

lemma step_conserves:
  assumes "holds_wf s"
  shows "total_value (state_after s (apply_op s x)) = total_value s
         \<and> holds_wf (state_after s (apply_op s x))"
  using assms apply_op_conserves [of s x]
  by (cases "apply_op s x") (auto simp: state_after_def)

text \<open>
  C2. Over any sequence of requests (transfers, e-mail payments created, claimed and
  cancelled, refunds, disputes filed and resolved) the sum of all balances and of the
  amounts of the pending e-mail payments stays the same.
\<close>

theorem conservation:
  assumes "holds_wf s"
  shows "total_value (exec s ops) = total_value s"
  using assms
proof (induction ops arbitrary: s)
  case Nil
  show ?case by simp
next
  case (Cons x xs)
  have "total_value (exec (state_after s (apply_op s x)) xs)
          = total_value (state_after s (apply_op s x))"
    using Cons.IH step_conserves [OF Cons.prems] by blast
  then show ?case
    using step_conserves [OF Cons.prems, of x] by simp
qed

theorem conservation_witness:
  "holds_wf ledger0 \<and> total_value ledger0 = 100
   \<and> total_value (exec ledger0 scenario_ops) = 100
   \<and> balance_of (exec ledger0 scenario_ops) ''A'' = Some 35
   \<and> balance_of (exec ledger0 scenario_ops) ''B'' = Some 65"
  using conservation [of ledger0 scenario_ops]
  by (simp add: holds_wf_def ledger0_def scenario_ops_def example_user_def total_value_def
        pending_total_def state_after_def balance_of_def findFirst_def toLowerCase_def
        lower_char_def sendMoney_def sendViaEmail_def claimPayment_def create_row_def
        increment_def decrement_def)

section \<open>Balances below zero\<close>

text \<open>
  The two requests of a user that debit an account check the balance first, so they
  keep all balances at least zero.
\<close>

lemma nonnegative_update:
  assumes "list_all (\<lambda>u. 0 \<le> u_balance u) us" and "update_row P f us = Some us'"
    and "findFirst P us = Some x" and "0 \<le> u_balance (f x)"
  shows "list_all (\<lambda>u. 0 \<le> u_balance u) us'"
  using assms update_row_set [OF assms(2,3)] unfolding list_all_iff by auto

lemma nonnegative_increment:
  assumes "list_all (\<lambda>u. 0 \<le> u_balance u) us" and "update_row P (increment a) us = Some us'"
    and "0 \<le> a"
  shows "list_all (\<lambda>u. 0 \<le> u_balance u) us'"
proof -
  obtain x where x: "findFirst P us = Some x"
    using update_row_found [OF assms(2)] by blast
  have "0 \<le> u_balance x"
    using findFirst_SomeD [OF x] assms(1) unfolding list_all_iff by auto
  then have "0 \<le> u_balance (increment a x)"
    using assms(3) by (simp add: increment_def)
  then show ?thesis
    using nonnegative_update [OF assms(1,2) x] by simp
qed

lemma sendMoney_nonnegative:
  assumes ok: "sendMoney s now newId senderId recipientEmail amount currency = Inr s'"
    and nn: "nonnegative s"
  shows "nonnegative s'"
proof -
  from ok obtain a sender and recipient :: user and us1 us2 where
    a: "\<not> a \<le> 0"
    and sender: "findFirst (\<lambda>u. u_id u = senderId) (users s) = Some sender"
    and enough: "\<not> u_balance sender < a"
    and us1: "update_row (\<lambda>u. u_id u = senderId) (decrement a) (users s) = Some us1"
    and us2: "update_row (\<lambda>u. u_id u = u_id recipient) (increment a) us1 = Some us2"
    and s': "users s' = us2"
    by (auto simp: sendMoney_def split: if_splits option.splits amount_input.splits)
  have "list_all (\<lambda>u. 0 \<le> u_balance u) us1"
    using nonnegative_update [OF _ us1 sender] nn enough
    by (simp add: nonnegative_def decrement_def)
  then have "list_all (\<lambda>u. 0 \<le> u_balance u) us2"
    using nonnegative_increment [OF _ us2] a by simp
  then show ?thesis
    by (simp add: nonnegative_def s')
qed

lemma sendViaEmail_nonnegative:
  assumes ok: "sendViaEmail s newId claimCode senderId recipientEmail amount expiresAt currency = Inr s'"
    and nn: "nonnegative s"
  shows "nonnegative s'"
proof -
  from ok obtain a sender us where
    sender: "findFirst (\<lambda>u. u_id u = senderId) (users s) = Some sender"
    and enough: "\<not> u_balance sender < a"
    and us: "update_row (\<lambda>u. u_id u = senderId) (decrement a) (users s) = Some us"
    and s': "users s' = us"
    by (auto simp: sendViaEmail_def Let_def split: if_splits option.splits amount_input.splits)
  have "list_all (\<lambda>u. 0 \<le> u_balance u) us"
    using nonnegative_update [OF _ us sender] nn enough
    by (simp add: nonnegative_def decrement_def)
  then show ?thesis
    by (simp add: nonnegative_def s')
qed

text \<open>
  C3. Every balance is at least zero after every operation, and every debit is preceded
  by a balance check. The two refund paths do not check: \<open>refundTransaction\<close> and the
  refund of \<open>resolveDispute\<close> debit the recipient of the original transaction whatever its
  balance is. Here the recipient has spent the 40 it received; the refund of the
  transaction leaves it at -40, and a dispute resolved with a refund of 30 at -30.
\<close>

theorem refund_overdraws:
  "balance_of (exec ledger0 refund_ops) ''B'' = Some (- 40)
   \<and> balance_of (exec ledger0 dispute_ops) ''B'' = Some (- 30)"
  by (simp add: refund_ops_def dispute_ops_def eval_defs sendMoney_def refundTransaction_def
        fileDispute_def resolveDispute_def dispute_refund_def update_dispute_def)

section \<open>Claiming an e-mail payment\<close>

lemma claimPayment_success:
  assumes c: "claimable s now userId claimCode h u"
    and fresh: "newId \<notin> set (map t_id (transactions s))"
  shows "\<exists>ps us.
      update_row (\<lambda>p. p_id p = p_id h)
         (\<lambda>p. p\<lparr>p_status := ''CLAIMED'', p_claimedById := Some userId\<rparr>) (emailPayments s) = Some ps
    \<and> update_row (\<lambda>u. u_id u = userId) (increment (p_amount h)) (users s) = Some us
    \<and> claimPayment s now newId userId claimCode =
        Inr (s\<lparr>users := us,
               transactions := transactions s @
                 [\<lparr> t_id = newId, t_senderId = p_senderId h, t_recipientId = userId,
                    t_amount = p_amount h, t_currency = p_currency h,
                    t_transactionType = ''EMAIL_PAYMENT'', t_status = ''COMPLETED'',
                    t_isFlagged = False, t_isRefunded = False, t_createdAt = now,
                    t_originalTransactionId = None, t_emailPaymentId = Some (p_id h),
                    t_disputeId = None \<rparr>],
               emailPayments := ps\<rparr>)"
proof -
  have h: "findFirst (\<lambda>p. p_claimCode p = claimCode \<and> p_status p = ''PENDING'') (emailPayments s) = Some h"
    and u: "findFirst (\<lambda>u. u_id u = userId) (users s) = Some u"
    using c by (auto simp: claimable_def)
  have "h \<in> set (emailPayments s)"
    using findFirst_SomeD [OF h] by simp
  then have "findFirst (\<lambda>p. p_id p = p_id h) (emailPayments s) \<noteq> None"
    by (auto simp: findFirst_None_iff)
  then obtain ps where ps: "update_row (\<lambda>p. p_id p = p_id h)
         (\<lambda>p. p\<lparr>p_status := ''CLAIMED'', p_claimedById := Some userId\<rparr>) (emailPayments s) = Some ps"
    using update_row_None_iff by (metis not_None_eq)
  obtain us where us: "update_row (\<lambda>u. u_id u = userId) (increment (p_amount h)) (users s) = Some us"
    using update_row_defined [OF u] by blast
  show ?thesis
    using c ps us fresh by (simp add: claimable_def claimPayment_def create_row_def)
qed

lemma claimPayment_InrD:
  assumes "claimPayment s now newId userId claimCode = Inr s'"
  shows "\<exists>h u. claimable s now userId claimCode h u"
  using assms
  by (auto simp: claimPayment_def claimable_def split: if_splits option.splits)

lemma claimPayment_InlD:
  assumes "claimPayment s now newId userId claimCode = Inl e"
    and "newId \<notin> set (map t_id (transactions s))"
  shows "e \<in> {MISSING_CLAIM_CODE, PAYMENT_NOT_FOUND, PAYMENT_EXPIRED, USER_NOT_FOUND, UNAUTHORIZED}"
proof (rule ccontr)
  assume ne: "e \<notin> {MISSING_CLAIM_CODE, PAYMENT_NOT_FOUND, PAYMENT_EXPIRED, USER_NOT_FOUND, UNAUTHORIZED}"
  with assms(1) obtain h u where "claimable s now userId claimCode h u"
    by (auto simp: claimPayment_def claimable_def split: if_splits option.splits)
  from claimPayment_success [OF this assms(2)] assms(1) show False
    by auto
qed

lemma claimed_not_found:
  fixes ps :: "emailPayment list"
  assumes wf: "distinct (map p_id ps)" and codes: "distinct (map p_claimCode ps)"
    and h: "h \<in> set ps" and code: "p_claimCode h = claimCode"
  shows "findFirst (\<lambda>p. p_claimCode p = claimCode \<and> p_status p = ''PENDING'')
           (map (\<lambda>p. if p_id p = p_id h
                      then p\<lparr>p_status := ''CLAIMED'', p_claimedById := Some userId\<rparr> else p) ps)
         = None"
proof -
  have "\<not> (p_claimCode y = claimCode \<and> p_status y = ''PENDING'')"
    if "y \<in> set (map (\<lambda>p. if p_id p = p_id h
                      then p\<lparr>p_status := ''CLAIMED'', p_claimedById := Some userId\<rparr> else p) ps)" for y
  proof -
    from that obtain x where x: "x \<in> set ps"
      and y: "y = (if p_id x = p_id h
                   then x\<lparr>p_status := ''CLAIMED'', p_claimedById := Some userId\<rparr> else x)"
      by auto
    show ?thesis
    proof (cases "p_id x = p_id h")
      case True
      then show ?thesis using y by simp
    next
      case False
      then have "x \<noteq> h" by auto
      then have "p_claimCode x \<noteq> p_claimCode h"
        using distinct_map_eq [OF codes x h] by blast
      then show ?thesis using y False code by simp
    qed
  qed
  then show ?thesis
    unfolding findFirst_None_iff by blast
qed

text \<open>
  C4, amended. With unique payment identifiers and claim codes, a claim succeeds if and
  only if a claim code is given, a pending payment has that code, its expiry is not
  earlier than \<open>now\<close>, and the e-mail address of the claiming user is the recipient address
  of the payment. On success the payment becomes \<open>CLAIMED\<close>, the balance of the claimant
  grows by exactly the amount, no other balance changes, and one \<open>COMPLETED\<close> transaction
  of type \<open>EMAIL_PAYMENT\<close> that refers to the payment is recorded; every later claim with
  the same code is answered with \<open>PAYMENT_NOT_FOUND\<close>. A rejected claim is answered with
  \<open>MISSING_CLAIM_CODE\<close>, \<open>PAYMENT_NOT_FOUND\<close>, \<open>PAYMENT_EXPIRED\<close>, \<open>USER_NOT_FOUND\<close> or
  \<open>UNAUTHORIZED\<close> and changes nothing.
\<close>

theorem claimPayment_exactly_once:
  assumes wf: "holds_wf s" and codes: "distinct (map p_claimCode (emailPayments s))"
    and fresh: "newId \<notin> set (map t_id (transactions s))"
  shows "case claimPayment s now newId userId claimCode of
           Inl e \<Rightarrow>
             (\<nexists>h u. claimable s now userId claimCode h u)
             \<and> e \<in> {MISSING_CLAIM_CODE, PAYMENT_NOT_FOUND, PAYMENT_EXPIRED, USER_NOT_FOUND,
                     UNAUTHORIZED}
         | Inr s' \<Rightarrow>
             (\<exists>h u tx. claimable s now userId claimCode h u
                \<and> balance_of s' userId = Some (u_balance u + p_amount h)
                \<and> (\<forall>k. k \<noteq> userId \<longrightarrow> balance_of s' k = balance_of s k)
                \<and> map_option p_status (findFirst (\<lambda>p. p_id p = p_id h) (emailPayments s'))
                    = Some ''CLAIMED''
                \<and> transactions s' = transactions s @ [tx]
                \<and> t_transactionType tx = ''EMAIL_PAYMENT'' \<and> t_status tx = ''COMPLETED''
                \<and> t_emailPaymentId tx = Some (p_id h) \<and> t_amount tx = p_amount h
                \<and> t_recipientId tx = userId
                \<and> (\<forall>now' newId' userId'.
                      claimPayment s' now' newId' userId' claimCode = Inl PAYMENT_NOT_FOUND))"
proof (cases "claimPayment s now newId userId claimCode")
  case (Inl e)
  have "\<nexists>h u. claimable s now userId claimCode h u"
  proof
    assume "\<exists>h u. claimable s now userId claimCode h u"
    then obtain h u where "claimable s now userId claimCode h u" by blast
    from claimPayment_success [OF this fresh] Inl show False by auto
  qed
  then show ?thesis
    using Inl claimPayment_InlD [OF Inl fresh] by simp
next
  case (Inr s')
  then obtain h u where c: "claimable s now userId claimCode h u"
    using claimPayment_InrD by blast
  define f :: "emailPayment \<Rightarrow> emailPayment"
    where "f = (\<lambda>p. p\<lparr>p_status := ''CLAIMED'', p_claimedById := Some userId\<rparr>)"
  define tx where "tx = \<lparr> t_id = newId, t_senderId = p_senderId h, t_recipientId = userId,
     t_amount = p_amount h, t_currency = p_currency h, t_transactionType = ''EMAIL_PAYMENT'',
     t_status = ''COMPLETED'', t_isFlagged = False, t_isRefunded = False, t_createdAt = now,
     t_originalTransactionId = None, t_emailPaymentId = Some (p_id h), t_disputeId = None \<rparr>"
  from claimPayment_success [OF c fresh] Inr obtain ps us where
    ps: "update_row (\<lambda>p. p_id p = p_id h) f (emailPayments s) = Some ps"
    and us: "update_row (\<lambda>u. u_id u = userId) (increment (p_amount h)) (users s) = Some us"
    and s': "s' = s\<lparr>users := us, transactions := transactions s @ [tx], emailPayments := ps\<rparr>"
    unfolding f_def tx_def by auto
  have h: "findFirst (\<lambda>p. p_claimCode p = claimCode \<and> p_status p = ''PENDING'') (emailPayments s) = Some h"
    and u: "findFirst (\<lambda>u. u_id u = userId) (users s) = Some u"
    and code: "claimCode \<noteq> []"
    using c by (auto simp: claimable_def)
  have hin: "h \<in> set (emailPayments s)" and hcode: "p_claimCode h = claimCode"
    using findFirst_SomeD [OF h] by auto
  have hid: "findFirst (\<lambda>p. p_id p = p_id h) (emailPayments s) = Some h"
    using findFirst_key_distinct [of p_id, OF _ hin] wf by (simp add: holds_wf_def)
  have bal: "balance_of s' userId = Some (u_balance u + p_amount h)"
    using update_row_find_key [where key = u_id and k = userId and k' = userId, OF us] u
    by (simp add: balance_of_def s' increment_def)
  have others: "\<forall>k. k \<noteq> userId \<longrightarrow> balance_of s' k = balance_of s k"
    using update_row_find_key [where key = u_id and k = userId, OF us]
    by (simp add: balance_of_def s')
  have st: "map_option p_status (findFirst (\<lambda>p. p_id p = p_id h) (emailPayments s')) = Some ''CLAIMED''"
    using update_row_find_key [where key = p_id and k = "p_id h" and k' = "p_id h", OF ps] hid
    by (simp add: s' f_def)
  have psmap: "ps = map (\<lambda>p. if p_id p = p_id h then f p else p) (emailPayments s)"
    using update_row_map [where key = p_id, OF _ ps] wf by (simp add: holds_wf_def)
  have gone: "findFirst (\<lambda>p. p_claimCode p = claimCode \<and> p_status p = ''PENDING'') (emailPayments s') = None"
  proof -
    have "emailPayments s' =
            map (\<lambda>p. if p_id p = p_id h
                     then p\<lparr>p_status := ''CLAIMED'', p_claimedById := Some userId\<rparr> else p)
              (emailPayments s)"
      unfolding s' psmap f_def by simp
    moreover have "distinct (map p_id (emailPayments s))"
      using wf by (simp add: holds_wf_def)
    ultimately show ?thesis
      using claimed_not_found [OF _ codes hin hcode, of userId] by simp
  qed
  have again: "\<forall>now' newId' userId'. claimPayment s' now' newId' userId' claimCode = Inl PAYMENT_NOT_FOUND"
    using gone code by (simp add: claimPayment_def)
  have "\<exists>h u tx. claimable s now userId claimCode h u
                \<and> balance_of s' userId = Some (u_balance u + p_amount h)
                \<and> (\<forall>k. k \<noteq> userId \<longrightarrow> balance_of s' k = balance_of s k)
                \<and> map_option p_status (findFirst (\<lambda>p. p_id p = p_id h) (emailPayments s'))
                    = Some ''CLAIMED''
                \<and> transactions s' = transactions s @ [tx]
                \<and> t_transactionType tx = ''EMAIL_PAYMENT'' \<and> t_status tx = ''COMPLETED''
                \<and> t_emailPaymentId tx = Some (p_id h) \<and> t_amount tx = p_amount h
                \<and> t_recipientId tx = userId
                \<and> (\<forall>now' newId' userId'.
                      claimPayment s' now' newId' userId' claimCode = Inl PAYMENT_NOT_FOUND)"
    using c bal others st again
    by (intro exI [of _ h] exI [of _ u] exI [of _ tx]) (simp add: s' tx_def)
  then show ?thesis
    using Inr by simp
qed

theorem claimPayment_exactly_once_witness:
  "holds_wf (exec ledger0 escrow_ops)
   \<and> balance_of (exec ledger0 escrow_ops) ''B'' = Some 40
   \<and> \<not> isl (claimPayment (exec ledger0 escrow_ops) 4000 ''t3'' ''B'' ''c0de'')
   \<and> balance_of (state_after (exec ledger0 escrow_ops)
         (claimPayment (exec ledger0 escrow_ops) 4000 ''t3'' ''B'' ''c0de'')) ''B'' = Some 65
   \<and> claimPayment (state_after (exec ledger0 escrow_ops)
         (claimPayment (exec ledger0 escrow_ops) 4000 ''t3'' ''B'' ''c0de''))
         5000 ''t4'' ''B'' ''c0de'' = Inl PAYMENT_NOT_FOUND"
  using claimPayment_exactly_once [of "exec ledger0 escrow_ops" "''t3''" 4000 "''B''" "''c0de''"]
  by (simp add: escrow_ops_def eval_defs holds_wf_def op_defs)

text \<open>
  Against C4 as first stated (a claim needs an expiry later than \<open>now\<close>): a payment whose
  expiry is exactly \<open>now\<close> is still claimed, since the code rejects a claim only when the
  expiry is earlier than \<open>now\<close>.
\<close>

theorem claim_at_expiry_counterexample:
  "map p_expiresAt (emailPayments (exec ledger0 escrow_ops)) = [604803000]
   \<and> \<not> isl (claimPayment (exec ledger0 escrow_ops) 604803000 ''t3'' ''B'' ''c0de'')
   \<and> balance_of (state_after (exec ledger0 escrow_ops)
         (claimPayment (exec ledger0 escrow_ops) 604803000 ''t3'' ''B'' ''c0de'')) ''B'' = Some 65"
  by (simp add: escrow_ops_def eval_defs sendMoney_def sendViaEmail_def claimPayment_def)

section \<open>Disputes\<close>

text \<open>
  The refund step leaves the dispute table alone, and the last write of \<open>resolveDispute\<close>
  succeeds whenever the dispute row exists: no error is answered after the refund has
  committed.
\<close>

lemma dispute_refund_disputes:
  "dispute_refund s now newId d tx r = Some s1 \<Longrightarrow> disputes s1 = disputes s"
  by (auto simp: dispute_refund_def split: option.splits)

lemma update_dispute_defined:
  assumes "findFirst (\<lambda>d. d_id d = did) (disputes s) = Some d"
  shows "\<exists>s'. update_dispute s did resolution refundAmount = Inr s'"
  using assms
  by (auto simp: update_dispute_def update_row_None_iff split: option.splits)



text \<open>
  C7, amended. When the transaction involves the filing user as sender or recipient,
  filing a dispute succeeds if and only if the same user has no earlier dispute, of any
  status, on the same transaction; otherwise the answer is \<open>DISPUTE_EXISTS\<close>.
\<close>

theorem fileDispute_once:
  assumes "transactionId \<noteq> []" and "reason \<noteq> []" and "description \<noteq> []"
    and "findFirst (\<lambda>t. t_id t = transactionId \<and>
                         (t_senderId t = userId \<or> t_recipientId t = userId))
           (transactions s) = Some tx"
    and "newId \<notin> set (map d_id (disputes s))"
  shows "fileDispute s newId userId transactionId reason description =
     (if \<exists>d \<in> set (disputes s). d_transactionId d = transactionId \<and> d_userId d = userId
      then Inl DISPUTE_EXISTS
      else Inr (s\<lparr>disputes := disputes s @
                  [\<lparr> d_id = newId, d_userId = userId, d_transactionId = transactionId,
                     d_status = ''OPEN'', d_resolution = None, d_refundAmount = None \<rparr>]\<rparr>))"
proof (cases "findFirst (\<lambda>d. d_transactionId d = transactionId \<and> d_userId d = userId) (disputes s)")
  case None
  then have "\<not> (\<exists>d \<in> set (disputes s). d_transactionId d = transactionId \<and> d_userId d = userId)"
    by (simp add: findFirst_None_iff)
  then show ?thesis
    using assms None by (simp add: fileDispute_def create_row_def)
next
  case (Some d)
  then have "\<exists>d \<in> set (disputes s). d_transactionId d = transactionId \<and> d_userId d = userId"
    using findFirst_SomeD [OF Some] by blast
  then show ?thesis
    using assms Some by (simp add: fileDispute_def)
qed

theorem fileDispute_once_witness:
  "fileDispute (exec ledger0 resolved_ops) ''d2'' ''B'' ''t1'' ''wrong amount'' ''too much''
     = Inr ((exec ledger0 resolved_ops)\<lparr>disputes := disputes (exec ledger0 resolved_ops) @
              [\<lparr> d_id = ''d2'', d_userId = ''B'', d_transactionId = ''t1'',
                 d_status = ''OPEN'', d_resolution = None, d_refundAmount = None \<rparr>]\<rparr>)"
  using fileDispute_once [of "''t1''" "''wrong amount''" "''too much''" "''B''"
      "exec ledger0 resolved_ops" "example_tx ''t1'' ''A'' ''B'' 40 ''COMPLETED'' 1000" "''d2''"]
  by (simp add: resolved_ops_def eval_defs op_defs example_tx_def)

text \<open>
  Against C7 as first stated (a resolved dispute does not block a new one): a user whose
  only dispute on a transaction is already resolved cannot file a new one on that
  transaction.
\<close>

theorem refile_after_resolution_counterexample:
  "map d_status (disputes (exec ledger0 resolved_ops)) = [''RESOLVED'']
   \<and> fileDispute (exec ledger0 resolved_ops) ''d2'' ''A'' ''t1'' ''not received'' ''still missing''
       = Inl DISPUTE_EXISTS"
  by (simp add: resolved_ops_def eval_defs op_defs)

section \<open>Properties of the fraud rules\<close>

text \<open>
  \<open>sendMoney\<close> starts the check with the identifier of the new row as argument. The
  properties here are those of \<open>checkTransaction\<close> applied to a transaction record.
\<close>

lemma evaluateRule_alerts_frame:
  "evaluateRule (s\<lparr>fraudAlerts := as\<rparr>) now rule tx = evaluateRule s now rule tx"
  by (simp add: evaluateRule_def checkVelocity_def)

text \<open>
  C5, amended. The velocity rule counts the transactions of the sender, of any status,
  that were created within the trailing window (\<open>timeWindowMinutes\<close>, 60 by default), and
  triggers when the count reaches \<open>maxTransactions\<close> (10 by default). With one active rule,
  of type \<open>VELOCITY\<close>, the check of a transaction creates exactly one alert, of type
  \<open>VELOCITY\<close>, when the rule triggers, and none otherwise; so it does for the fourth
  transfer of a sender within 60 minutes under the conditions 60 and 3.
\<close>

theorem velocity_alert:
  assumes "filter r_isActive (fraudRules s) = [rule]" and "r_ruleType rule = ''VELOCITY''"
  shows "fst (checkTransaction s now tx) =
     (if or_default (maxTransactions (r_conditions rule)) 10
           \<le> int (length (filter
                 (\<lambda>t. t_senderId t = c_senderId tx
                       \<and> now - or_default (timeWindowMinutes (r_conditions rule)) 60 * 60 * 1000
                           \<le> t_createdAt t)
                 (transactions s)))
      then [alert_for rule tx] else [])
     \<and> a_alertType (alert_for rule tx) = ''VELOCITY''"
  using assms
  by (simp add: checkTransaction_def evaluateRule_def checkVelocity_def alert_for_def Let_def)

theorem velocity_alert_witness:
  "map t_status (transactions velocity_db) = [''COMPLETED'', ''COMPLETED'', ''COMPLETED'', ''COMPLETED'']
   \<and> fst (checkTransaction velocity_db 241000 (example_checked ''t4'' ''A'' 10))
       = [\<lparr> a_transactionId = ''t4'', a_userId = ''A'', a_ruleId = ''r1'',
            a_alertType = ''VELOCITY'', a_severity = ''HIGH'' \<rparr>]"
  using velocity_alert [of velocity_db "example_rule ''r1'' ''VELOCITY''" 241000
      "example_checked ''t4'' ''A'' 10"]
  by (simp add: velocity_db_def four_transfers_def eval_defs op_defs example_rule_def
        example_checked_def or_default_def alert_for_def)

text \<open>
  Against C5 as first stated (only completed movements are counted): three failed
  transactions of the sender trigger the rule, although no completed movement of the
  sender lies in the window.
\<close>

theorem velocity_counts_failed_counterexample:
  "checkVelocity failed_db 4000 (r_conditions (example_rule ''r1'' ''VELOCITY''))
      (example_checked ''t3'' ''A'' 10)
   \<and> \<not> spec_velocity failed_db 4000 60 3 ''A''"
  by (simp add: failed_db_def ledger0_def example_tx_def example_rule_def example_checked_def
        checkVelocity_def spec_velocity_def or_default_def)

lemma evaluateRule_types:
  "evaluateRule s now rule tx \<Longrightarrow>
   r_ruleType rule \<in> {''VELOCITY'', ''AMOUNT_THRESHOLD'', ''NEW_USER_HIGH_AMOUNT''}"
  by (simp add: evaluateRule_def checkGeographicAnomaly_def split: if_splits)

lemma check_rules_types:
  "a \<in> set (fst (check_rules s now tx rules)) \<Longrightarrow>
   a_alertType a \<in> {''VELOCITY'', ''AMOUNT_THRESHOLD'', ''NEW_USER_HIGH_AMOUNT''}"
proof (induction rules arbitrary: s)
  case Nil
  then show ?case by simp
next
  case (Cons rule rules)
  show ?case
  proof (cases "evaluateRule s now rule tx")
    case True
    then have ty: "a_alertType (alert_for rule tx)
                     \<in> {''VELOCITY'', ''AMOUNT_THRESHOLD'', ''NEW_USER_HIGH_AMOUNT''}"
      using evaluateRule_types [OF True] by (simp add: alert_for_def)
    from Cons.prems True have
      "a = alert_for rule tx \<or>
       a \<in> set (fst (check_rules (s\<lparr>fraudAlerts := fraudAlerts s @ [alert_for rule tx]\<rparr>) now tx rules))"
      by (auto simp: Let_def split: prod.splits)
    then show ?thesis
      using ty Cons.IH by blast
  next
    case False
    then show ?thesis
      using Cons by simp
  qed
qed

lemma check_rules_written:
  "fraudAlerts (snd (check_rules s now tx rules)) = fraudAlerts s @ fst (check_rules s now tx rules)"
proof (induction rules arbitrary: s)
  case Nil
  show ?case by simp
next
  case (Cons rule rules)
  show ?case
  proof (cases "evaluateRule s now rule tx")
    case True
    define s1 where "s1 = s\<lparr>fraudAlerts := fraudAlerts s @ [alert_for rule tx]\<rparr>"
    have "fraudAlerts (snd (check_rules s1 now tx rules))
            = fraudAlerts s1 @ fst (check_rules s1 now tx rules)"
      by (rule Cons.IH)
    then show ?thesis
      using True by (simp add: s1_def Let_def case_prod_beta)
  next
    case False
    then show ?thesis
      using Cons.IH [of s] by simp
  qed
qed

text \<open>
  C10. A rule whose type is \<open>GEOGRAPHIC_ANOMALY\<close>, or any type other than \<open>VELOCITY\<close>,
  \<open>AMOUNT_THRESHOLD\<close> and \<open>NEW_USER_HIGH_AMOUNT\<close>, is never triggered: \<open>evaluateRule\<close> is
  false on every input, no alert that \<open>checkTransaction\<close> creates has the type of such a
  rule, and the alerts written to the datastore are exactly the alerts returned.
\<close>

theorem unknown_rule_never_alerts:
  assumes "r_ruleType rule \<notin> {''VELOCITY'', ''AMOUNT_THRESHOLD'', ''NEW_USER_HIGH_AMOUNT''}"
  shows "\<not> evaluateRule s now rule tx
       \<and> (\<forall>a \<in> set (fst (checkTransaction s now tx)). a_alertType a \<noteq> r_ruleType rule)
       \<and> fraudAlerts (snd (checkTransaction s now tx))
           = fraudAlerts s @ fst (checkTransaction s now tx)"
proof -
  have "\<not> evaluateRule s now rule tx"
    using assms evaluateRule_types by blast
  moreover have "a_alertType a \<noteq> r_ruleType rule"
    if "a \<in> set (fst (checkTransaction s now tx))" for a
    using that assms check_rules_types [of a s now tx "filter r_isActive (fraudRules s)"]
    unfolding checkTransaction_def by metis
  moreover have "fraudAlerts (snd (checkTransaction s now tx))
           = fraudAlerts s @ fst (checkTransaction s now tx)"
    unfolding checkTransaction_def by (rule check_rules_written)
  ultimately show ?thesis by blast
qed

theorem unknown_rule_never_alerts_witness:
  "checkTransaction (failed_db\<lparr>fraudRules := [example_rule ''r2'' ''GEOGRAPHIC_ANOMALY'']\<rparr>) 4000
      (example_checked ''t3'' ''A'' 10)
   = ([], failed_db\<lparr>fraudRules := [example_rule ''r2'' ''GEOGRAPHIC_ANOMALY'']\<rparr>)"
  using unknown_rule_never_alerts [of "example_rule ''r2'' ''GEOGRAPHIC_ANOMALY''"
      "failed_db\<lparr>fraudRules := [example_rule ''r2'' ''GEOGRAPHIC_ANOMALY'']\<rparr>" 4000
      "example_checked ''t3'' ''A'' 10"]
  by (simp add: failed_db_def ledger0_def example_rule_def checkTransaction_def evaluateRule_def
        checkGeographicAnomaly_def)

section \<open>Properties of the risk score\<close>

lemma score_step:
  fixes x :: int
  shows "(if c then x + k else x) = x + (if c then k else 0)"
    and "(if a then x + k else if b then x + l else x) = x + (if a then k else if b then l else 0)"
    and "(if a then x + k else if b then x + l else if d then x + m else x)
           = x + (if a then k else if b then l else if d then m else 0)"
  by simp_all

text \<open>
  The score is a function of the datastore and the clock that returns a number and
  nothing else; the number lies between 0 and 100.
\<close>

lemma riskScore_bounds:
  "0 \<le> calculateUserRiskScore rel s now userId \<and> calculateUserRiskScore rel s now userId \<le> 100"
proof (cases "findFirst (\<lambda>u. u_id u = userId) (users s)")
  case None
  then show ?thesis
    by (simp add: calculateUserRiskScore_def)
next
  case (Some user)
  have nn: "(0::int) \<le> (if a then 20 else if b then 10 else if c then 5 else 0)"
     "(0::int) \<le> (if d then 15 else if e then 10 else 0)"
     "(0::int) \<le> (if f then 15 else 0)" "(0::int) \<le> (if g then 10 else 0)" for a b c d e f g
    by simp_all
  show ?thesis
    using Some
    by (simp add: calculateUserRiskScore_def Let_def score_step add_nonneg_nonneg nn
          split del: if_split)
qed

text \<open>
  C9. The score is the sum of the weighted factors, capped at 100, and the KYC state is
  one of the factors: an account that is not verified scores higher. The code adds the
  weight 15 for the state \<open>UNVERIFIED\<close>, which nothing stores: registration stores \<open>NONE\<close>.
  An account in the state \<open>NONE\<close>, 100 days old and with nothing else against it, scores
  0 like a verified one, where a pending one scores 10; only the state \<open>UNVERIFIED\<close>
  would score 15.
\<close>

theorem kyc_none_scores_as_verified:
  "map u_kycStatus (users (kyc_db ''NONE'')) = [''NONE'']
   \<and> calculateUserRiskScore rel (kyc_db ''NONE'') 8640000000 ''N'' = 0
   \<and> calculateUserRiskScore rel (kyc_db ''VERIFIED'') 8640000000 ''N'' = 0
   \<and> calculateUserRiskScore rel (kyc_db ''PENDING'') 8640000000 ''N'' = 10
   \<and> calculateUserRiskScore rel (kyc_db ''UNVERIFIED'') 8640000000 ''N'' = 15"
  by (simp add: kyc_db_def ledger0_def example_user_def findFirst_def calculateUserRiskScore_def)

end
